theory Spec2Isabelle
  imports Main
begin

section \<open>Python values, errors and loops\<close>

text \<open>
  The repository is a set of Python modules computing Fibonacci numbers. Python integers are
  unbounded, so they are \<open>int\<close>. A raised exception is the left summand of the result;
  \<open>ValueError\<close> is the only exception the modules raise themselves, \<open>KeyError\<close> is what a
  dictionary subscript \<open>memo[n]\<close> raises on a missing key, and \<open>RecursionError\<close> is what
  the interpreter raises at a call that would make the call stack deeper than its limit
  (\<open>sys.getrecursionlimit()\<close>, 1000 unless changed; the modules never change it).
\<close>

datatype error = ValueError | KeyError | RecursionError

type_synonym memo = "int \<rightharpoonup> int"

text \<open>\<open>range(lo, hi)\<close>: the integers from \<open>lo\<close> up to \<open>hi - 1\<close>.\<close>

definition range_py :: "int \<Rightarrow> int \<Rightarrow> int list" where
  "range_py lo hi = [lo..hi - 1]"

text \<open>Reading \<open>memo[k]\<close>.\<close>

definition subscript :: "memo \<Rightarrow> int \<Rightarrow> error + int" where
  "subscript m k = (case m k of None \<Rightarrow> Inl KeyError | Some v \<Rightarrow> Inr v)"

section \<open>The module \<^verbatim>\<open>Fibonnaci_function.py\<close>\<close>

text \<open>
  The body of the loop \<open>for _ in range(1, n): seq.append(b); a, b = b, a + b\<close>, on the
  loop state \<open>(seq, a, b)\<close>. The loop variable is not used.
\<close>

definition append_step :: "int \<Rightarrow> int list \<times> int \<times> int \<Rightarrow> int list \<times> int \<times> int" where
  "append_step i s = (case s of (seq, a, b) \<Rightarrow> (seq @ [b], b, a + b))"

definition generate_fibonacci :: "int \<Rightarrow> error + int list" where
  "generate_fibonacci n =
     (if n \<le> 0 then Inr []
      else let seq = [0] in
        if n = 1 then Inr seq
        else (case fold append_step (range_py 1 n) (seq, 0, 1) of
                (seq', a, b) \<Rightarrow> Inr seq'))"

section \<open>The module \<^verbatim>\<open>fibonacci_iterative.py\<close>\<close>

definition fibonacci_iterative :: "int \<Rightarrow> error + int list" where
  "fibonacci_iterative n =
     (if n < 0 then Inl ValueError
      else if n = 0 then Inr []
      else let result = [0] in
        if n = 1 then Inr result
        else (case fold append_step (range_py 1 n) (result, 0, 1) of
                (result', a, b) \<Rightarrow> Inr result'))"

text \<open>The body of \<open>for _ in range(2, n + 1): a, b = b, a + b\<close>.\<close>

definition pair_step :: "int \<Rightarrow> int \<times> int \<Rightarrow> int \<times> int" where
  "pair_step i s = (case s of (a, b) \<Rightarrow> (b, a + b))"

definition get_nth_fibonacci_iterative :: "int \<Rightarrow> error + int" where
  "get_nth_fibonacci_iterative n =
     (if n < 0 then Inl ValueError
      else if n = 0 then Inr 0
      else if n = 1 then Inr 1
      else (case fold pair_step (range_py 2 (n + 1)) (0, 1) of (a, b) \<Rightarrow> Inr b))"

section \<open>The module \<^verbatim>\<open>fibonacci_recursive.py\<close>\<close>

text \<open>
  The functions of this module call Python functions from inside a Python function, so each
  takes as its first argument \<open>depth\<close>, the number of nested calls the interpreter still
  allows when the function is entered. A call made when \<open>depth\<close> is 0 raises
  \<open>RecursionError\<close> in the caller; any other call enters the callee with one less. A function
  called from the top level of a script under the default limit is entered with a \<open>depth\<close>
  of about 998. The functions of the other two modules call no Python function and need no
  such argument.
\<close>

function fibonacci_recursive_basic :: "nat \<Rightarrow> int \<Rightarrow> error + int" where
  "fibonacci_recursive_basic depth n =
     (if n < 0 then Inl ValueError
      else if n = 0 then Inr 0
      else if n = 1 then Inr 1
      else (case depth of
              0 \<Rightarrow> Inl RecursionError
            | Suc d \<Rightarrow>
                (case fibonacci_recursive_basic d (n - 1) of
                   Inl e \<Rightarrow> Inl e
                 | Inr x \<Rightarrow>
                     (case fibonacci_recursive_basic d (n - 2) of
                        Inl e \<Rightarrow> Inl e
                      | Inr y \<Rightarrow> Inr (x + y)))))"
  by pat_completeness auto
termination
  by (relation "measure (\<lambda>(depth, n). depth)") auto

declare fibonacci_recursive_basic.simps [simp del]

text \<open>
  \<open>fibonacci_recursive_memoized(n, memo=None)\<close>. The argument is \<open>None\<close> or a dictionary;
  the dictionary is mutated in place, so the call returns, beside its result, the contents of
  the dictionary it worked on: the caller's, or its own fresh one when \<open>memo\<close> was \<open>None\<close>.
  The right-hand side of \<open>memo[n] = f(n - 1, memo) + f(n - 2, memo)\<close> is evaluated left to
  right, the second call seeing what the first one stored, and an exception in a call leaves
  the dictionary as that call left it.
\<close>

function fibonacci_recursive_memoized ::
  "nat \<Rightarrow> int \<Rightarrow> memo option \<Rightarrow> (error + int) \<times> memo" where
  "fibonacci_recursive_memoized depth n memo0 =
     (if n < 0 then (Inl ValueError, (case memo0 of None \<Rightarrow> Map.empty | Some m \<Rightarrow> m))
      else let memo = (case memo0 of None \<Rightarrow> Map.empty | Some m \<Rightarrow> m) in
        if memo n \<noteq> None then (subscript memo n, memo)
        else if n = 0 then (Inr 0, memo)
        else if n = 1 then (Inr 1, memo)
        else (case depth of
                0 \<Rightarrow> (Inl RecursionError, memo)
              | Suc d \<Rightarrow>
                  (case fibonacci_recursive_memoized d (n - 1) (Some memo) of
                     (Inl e, memo1) \<Rightarrow> (Inl e, memo1)
                   | (Inr x, memo1) \<Rightarrow>
                       (case fibonacci_recursive_memoized d (n - 2) (Some memo1) of
                          (Inl e, memo2) \<Rightarrow> (Inl e, memo2)
                        | (Inr y, memo2) \<Rightarrow>
                            (let memo3 = memo2(n \<mapsto> x + y)
                             in (subscript memo3 n, memo3))))))"
  by pat_completeness auto
termination
  by (relation "measure (\<lambda>(depth, n, memo0). depth)") auto

declare fibonacci_recursive_memoized.simps [simp del]

text \<open>
  The loop of \<open>fibonacci_sequence_recursive\<close>: each index is computed by a call without a
  dictionary, \<open>fibonacci_recursive_memoized(i)\<close>, and an exception ends the loop.
\<close>

fun sequence_loop :: "nat \<Rightarrow> int list \<Rightarrow> int list \<Rightarrow> error + int list" where
  "sequence_loop depth [] result = Inr result"
| "sequence_loop depth (i # rest) result =
     (case depth of
        0 \<Rightarrow> Inl RecursionError
      | Suc d \<Rightarrow>
          (case fst (fibonacci_recursive_memoized d i None) of
             Inl e \<Rightarrow> Inl e
           | Inr v \<Rightarrow> sequence_loop depth rest (result @ [v])))"

definition fibonacci_sequence_recursive :: "nat \<Rightarrow> int \<Rightarrow> error + int list" where
  "fibonacci_sequence_recursive depth n =
     (if n < 0 then Inl ValueError else sequence_loop depth (range_py 0 n) [])"

section \<open>The reference sequence\<close>

text \<open>
  The specification's own definition of the sequence, \<open>F(0) = 0\<close>, \<open>F(1) = 1\<close> and
  \<open>F(n) = F(n-1) + F(n-2)\<close> for \<open>n \<ge> 2\<close>, written from its words and compared below
  with each function of the modules.
\<close>

fun fib_spec :: "nat \<Rightarrow> int" where
  "fib_spec 0 = 0"
| "fib_spec (Suc 0) = 1"
| "fib_spec (Suc (Suc k)) = fib_spec (Suc k) + fib_spec k"

text \<open>
  A dictionary is consistent when every entry under a non-negative key holds the reference
  value of that key. The empty dictionary is, and a caller's dictionary need not be.
\<close>

definition consistent :: "memo \<Rightarrow> bool" where
  "consistent m = (\<forall>k v. 0 \<le> k \<longrightarrow> m k = Some v \<longrightarrow> v = fib_spec (nat k))"

section \<open>The loops\<close>

lemma length_range_py: "length (range_py lo hi) = nat (hi - lo)"
  by (simp add: range_py_def)

lemma fold_append_step:
  "fold append_step xs (seq, fib_spec i, fib_spec (Suc i)) =
     (seq @ map fib_spec [Suc i..<Suc i + length xs], fib_spec (i + length xs),
      fib_spec (Suc (i + length xs)))"
proof (induction xs arbitrary: seq i)
  case Nil
  show ?case by simp
next
  case (Cons x xs)
  have "fold append_step (x # xs) (seq, fib_spec i, fib_spec (Suc i)) =
        fold append_step xs (seq @ [fib_spec (Suc i)], fib_spec (Suc i), fib_spec (Suc (Suc i)))"
    by (simp add: append_step_def add.commute)
  also have "\<dots> = ((seq @ [fib_spec (Suc i)]) @ map fib_spec [Suc (Suc i)..<Suc (Suc i) + length xs],
        fib_spec (Suc i + length xs), fib_spec (Suc (Suc i + length xs)))"
    by (rule Cons.IH)
  finally show ?case by (simp add: upt_rec)
qed

lemma fold_pair_step:
  "fold pair_step xs (fib_spec i, fib_spec (Suc i)) =
     (fib_spec (i + length xs), fib_spec (Suc (i + length xs)))"
proof (induction xs arbitrary: i)
  case Nil
  show ?case by simp
next
  case (Cons x xs)
  have "fold pair_step (x # xs) (fib_spec i, fib_spec (Suc i)) =
        fold pair_step xs (fib_spec (Suc i), fib_spec (Suc (Suc i)))"
    by (simp add: pair_step_def add.commute)
  then show ?case using Cons.IH [of "Suc i"] by simp
qed

section \<open>The memoized function, one case at a time\<close>

lemma memoized_None:
  "fibonacci_recursive_memoized d n None = fibonacci_recursive_memoized d n (Some Map.empty)"
  by (subst fibonacci_recursive_memoized.simps, subst (2) fibonacci_recursive_memoized.simps) simp

lemma memoized_negative:
  "n < 0 \<Longrightarrow> fibonacci_recursive_memoized d n (Some m) = (Inl ValueError, m)"
  by (subst fibonacci_recursive_memoized.simps) simp

lemma memoized_hit:
  "0 \<le> n \<Longrightarrow> m n = Some v \<Longrightarrow> fibonacci_recursive_memoized d n (Some m) = (Inr v, m)"
  by (subst fibonacci_recursive_memoized.simps) (simp add: subscript_def)

lemma memoized_zero: "m 0 = None \<Longrightarrow> fibonacci_recursive_memoized d 0 (Some m) = (Inr 0, m)"
  by (subst fibonacci_recursive_memoized.simps) simp

lemma memoized_one: "m 1 = None \<Longrightarrow> fibonacci_recursive_memoized d 1 (Some m) = (Inr 1, m)"
  by (subst fibonacci_recursive_memoized.simps) simp

lemma memoized_exhausted:
  "2 \<le> n \<Longrightarrow> m n = None \<Longrightarrow>
     fibonacci_recursive_memoized 0 n (Some m) = (Inl RecursionError, m)"
  by (subst fibonacci_recursive_memoized.simps) simp

lemma memoized_first_raises:
  assumes "2 \<le> n" and "m n = None"
    and "fibonacci_recursive_memoized d (n - 1) (Some m) = (Inl e, m1)"
  shows "fibonacci_recursive_memoized (Suc d) n (Some m) = (Inl e, m1)"
  using assms by (subst fibonacci_recursive_memoized.simps) simp

lemma memoized_second_raises:
  assumes "2 \<le> n" and "m n = None"
    and "fibonacci_recursive_memoized d (n - 1) (Some m) = (Inr x, m1)"
    and "fibonacci_recursive_memoized d (n - 2) (Some m1) = (Inl e, m2)"
  shows "fibonacci_recursive_memoized (Suc d) n (Some m) = (Inl e, m2)"
  using assms by (subst fibonacci_recursive_memoized.simps) simp

lemma memoized_step:
  assumes "2 \<le> n" and "m n = None"
    and "fibonacci_recursive_memoized d (n - 1) (Some m) = (Inr x, m1)"
    and "fibonacci_recursive_memoized d (n - 2) (Some m1) = (Inr y, m2)"
  shows "fibonacci_recursive_memoized (Suc d) n (Some m) = (Inr (x + y), m2(n \<mapsto> x + y))"
  using assms by (subst fibonacci_recursive_memoized.simps) (simp add: subscript_def)

text \<open>
  Every call is of one of eight kinds; the facts below are proved by going through them.
\<close>

lemma memoized_cases [case_names negative hit zero one exhausted first_raises second_raises step]:
  assumes "n < 0 \<Longrightarrow> P"
    and "\<And>v. 0 \<le> n \<Longrightarrow> m n = Some v \<Longrightarrow> P"
    and "n = 0 \<Longrightarrow> m n = None \<Longrightarrow> P"
    and "n = 1 \<Longrightarrow> m n = None \<Longrightarrow> P"
    and "2 \<le> n \<Longrightarrow> m n = None \<Longrightarrow> d = 0 \<Longrightarrow> P"
    and "\<And>d' e m1. 2 \<le> n \<Longrightarrow> m n = None \<Longrightarrow> d = Suc d' \<Longrightarrow>
           fibonacci_recursive_memoized d' (n - 1) (Some m) = (Inl e, m1) \<Longrightarrow> P"
    and "\<And>d' x m1 e m2. 2 \<le> n \<Longrightarrow> m n = None \<Longrightarrow> d = Suc d' \<Longrightarrow>
           fibonacci_recursive_memoized d' (n - 1) (Some m) = (Inr x, m1) \<Longrightarrow>
           fibonacci_recursive_memoized d' (n - 2) (Some m1) = (Inl e, m2) \<Longrightarrow> P"
    and "\<And>d' x m1 y m2. 2 \<le> n \<Longrightarrow> m n = None \<Longrightarrow> d = Suc d' \<Longrightarrow>
           fibonacci_recursive_memoized d' (n - 1) (Some m) = (Inr x, m1) \<Longrightarrow>
           fibonacci_recursive_memoized d' (n - 2) (Some m1) = (Inr y, m2) \<Longrightarrow> P"
  shows P
proof (cases "n < 0")
  case True
  then show ?thesis by (rule assms(1))
next
  case nonneg: False
  show ?thesis
  proof (cases "m n")
    case (Some v)
    with nonneg show ?thesis using assms(2) by simp
  next
    case None
    consider "n = 0" | "n = 1" | "2 \<le> n" using nonneg by linarith
    then show ?thesis
    proof cases
      case 1
      with None show ?thesis using assms(3) by simp
    next
      case 2
      with None show ?thesis using assms(4) by simp
    next
      case 3
      show ?thesis
      proof (cases d)
        case 0
        with 3 None show ?thesis using assms(5) by simp
      next
        case (Suc d')
        obtain r1 m1 where a: "fibonacci_recursive_memoized d' (n - 1) (Some m) = (r1, m1)"
          by (cases "fibonacci_recursive_memoized d' (n - 1) (Some m)")
        show ?thesis
        proof (cases r1)
          case (Inl e)
          with 3 None Suc a show ?thesis using assms(6) by simp
        next
          case (Inr x)
          obtain r2 m2 where b: "fibonacci_recursive_memoized d' (n - 2) (Some m1) = (r2, m2)"
            by (cases "fibonacci_recursive_memoized d' (n - 2) (Some m1)")
          show ?thesis
          proof (cases r2)
            case (Inl e)
            with 3 None Suc a b Inr show ?thesis using assms(7) by simp
          next
            case r2: (Inr y)
            with 3 None Suc a b Inr show ?thesis using assms(8) by simp
          qed
        qed
      qed
    qed
  qed
qed

lemma memoized_keeps:
  "m k = Some v \<Longrightarrow> snd (fibonacci_recursive_memoized d n (Some m)) k = Some v"
proof (induction d arbitrary: n m)
  case 0
  show ?case
  proof (cases rule: memoized_cases [where n = n and m = m and d = 0])
    case negative
    with 0 show ?thesis by (simp add: memoized_negative)
  next
    case (hit w)
    with 0 show ?thesis by (simp add: memoized_hit)
  next
    case zero
    with 0 show ?thesis by (simp add: memoized_zero)
  next
    case one
    with 0 show ?thesis by (simp add: memoized_one)
  next
    case exhausted
    with 0 show ?thesis by (simp add: memoized_exhausted)
  qed simp_all
next
  case (Suc d)
  show ?case
  proof (cases rule: memoized_cases [where n = n and m = m and d = "Suc d"])
    case negative
    with Suc.prems show ?thesis by (simp add: memoized_negative)
  next
    case (hit w)
    with Suc.prems show ?thesis by (simp add: memoized_hit)
  next
    case zero
    with Suc.prems show ?thesis by (simp add: memoized_zero)
  next
    case one
    with Suc.prems show ?thesis by (simp add: memoized_one)
  next
    case exhausted
    then show ?thesis by simp
  next
    case (first_raises d' e m1)
    then have a: "fibonacci_recursive_memoized d (n - 1) (Some m) = (Inl e, m1)" by simp
    have "m1 k = Some v" using Suc.IH [of m "n - 1"] Suc.prems a by simp
    then show ?thesis
      using memoized_first_raises [OF first_raises(1,2) a] by simp
  next
    case (second_raises d' x m1 e m2)
    then have a: "fibonacci_recursive_memoized d (n - 1) (Some m) = (Inr x, m1)"
      and b: "fibonacci_recursive_memoized d (n - 2) (Some m1) = (Inl e, m2)" by simp_all
    have "m1 k = Some v" using Suc.IH [of m "n - 1"] Suc.prems a by simp
    then have "m2 k = Some v" using Suc.IH [of m1 "n - 2"] b by simp
    then show ?thesis
      using memoized_second_raises [OF second_raises(1,2) a b] by simp
  next
    case (step d' x m1 y m2)
    then have a: "fibonacci_recursive_memoized d (n - 1) (Some m) = (Inr x, m1)"
      and b: "fibonacci_recursive_memoized d (n - 2) (Some m1) = (Inr y, m2)" by simp_all
    have "m1 k = Some v" using Suc.IH [of m "n - 1"] Suc.prems a by simp
    then have "m2 k = Some v" using Suc.IH [of m1 "n - 2"] b by simp
    moreover have "k \<noteq> n" using step(2) Suc.prems by auto
    ultimately show ?thesis
      using memoized_step [OF step(1,2) a b] by simp
  qed
qed

section \<open>What a call of the memoized function stores\<close>

lemma memoized_returns:
  "0 \<le> n \<Longrightarrow> n \<le> int d + 1 \<Longrightarrow>
     \<exists>v m'. fibonacci_recursive_memoized d n (Some m) = (Inr v, m')"
proof (induction d arbitrary: n m)
  case 0
  then have "n = 0 \<or> n = 1" by linarith
  then show ?case
    by (cases "m n") (auto simp: memoized_hit memoized_zero memoized_one)
next
  case (Suc d)
  show ?case
  proof (cases "m n")
    case (Some v)
    with Suc.prems show ?thesis by (simp add: memoized_hit)
  next
    case None
    consider "n = 0" | "n = 1" | "2 \<le> n" using Suc.prems by linarith
    then show ?thesis
    proof cases
      case 1
      with None show ?thesis by (simp add: memoized_zero)
    next
      case 2
      with None show ?thesis by (simp add: memoized_one)
    next
      case 3
      obtain x m1 where a: "fibonacci_recursive_memoized d (n - 1) (Some m) = (Inr x, m1)"
        using Suc.IH [of "n - 1" m] Suc.prems 3 by auto
      obtain y m2 where b: "fibonacci_recursive_memoized d (n - 2) (Some m1) = (Inr y, m2)"
        using Suc.IH [of "n - 2" m1] Suc.prems 3 by auto
      show ?thesis using memoized_step [OF 3 None a b] by simp
    qed
  qed
qed

lemma memoized_stores:
  assumes "2 \<le> n" and "fibonacci_recursive_memoized d n (Some m) = (Inr v, m')"
  shows "m' n = Some v"
proof (cases rule: memoized_cases [where n = n and m = m and d = d])
  case negative
  with assms show ?thesis by simp
next
  case (hit w)
  with assms show ?thesis by (simp add: memoized_hit)
next
  case zero
  with assms show ?thesis by simp
next
  case one
  with assms show ?thesis by simp
next
  case exhausted
  with assms show ?thesis by (simp add: memoized_exhausted)
next
  case (first_raises d' e m1)
  with assms show ?thesis using memoized_first_raises [OF first_raises(1,2,4)] by simp
next
  case (second_raises d' x m1 e m2)
  with assms show ?thesis using memoized_second_raises [OF second_raises(1,2,4,5)] by simp
next
  case (step d' x m1 y m2)
  with assms show ?thesis using memoized_step [OF step(1,2,4,5)] by auto
qed

lemma memoized_known:
  assumes "0 \<le> n" and "n < 2 \<or> m n \<noteq> None"
  shows "\<exists>v. fibonacci_recursive_memoized d n (Some m) = (Inr v, m)"
proof (cases "m n")
  case (Some v)
  with assms show ?thesis by (simp add: memoized_hit)
next
  case None
  with assms have "n = 0 \<or> n = 1" by auto
  with None show ?thesis by (auto simp: memoized_zero memoized_one)
qed

text \<open>A call that raises has stored nothing.\<close>

lemma memoized_raises_unchanged:
  "fibonacci_recursive_memoized d n (Some m) = (Inl e, m') \<Longrightarrow> m' = m"
proof (induction d arbitrary: n m e m')
  case 0
  show ?case
  proof (cases rule: memoized_cases [where n = n and m = m and d = 0])
    case negative
    with 0 show ?thesis by (simp add: memoized_negative)
  next
    case (hit w)
    with 0 show ?thesis by (simp add: memoized_hit)
  next
    case zero
    with 0 show ?thesis by (simp add: memoized_zero)
  next
    case one
    with 0 show ?thesis by (simp add: memoized_one)
  next
    case exhausted
    with 0 show ?thesis by (simp add: memoized_exhausted)
  qed simp_all
next
  case (Suc d)
  show ?case
  proof (cases rule: memoized_cases [where n = n and m = m and d = "Suc d"])
    case negative
    with Suc.prems show ?thesis by (simp add: memoized_negative)
  next
    case (hit w)
    with Suc.prems show ?thesis by (simp add: memoized_hit)
  next
    case zero
    with Suc.prems show ?thesis by (simp add: memoized_zero)
  next
    case one
    with Suc.prems show ?thesis by (simp add: memoized_one)
  next
    case exhausted
    then show ?thesis by simp
  next
    case (first_raises d' e1 m1)
    then have a: "fibonacci_recursive_memoized d (n - 1) (Some m) = (Inl e1, m1)" by simp
    have "m1 = m" using Suc.IH [OF a] .
    then show ?thesis
      using memoized_first_raises [OF first_raises(1,2) a] Suc.prems by simp
  next
    case (second_raises d' x m1 e2 m2)
    then have a: "fibonacci_recursive_memoized d (n - 1) (Some m) = (Inr x, m1)"
      and b: "fibonacci_recursive_memoized d (n - 2) (Some m1) = (Inl e2, m2)" by simp_all
    have m2: "m2 = m1" using Suc.IH [OF b] .
    have "m1 = m"
    proof (cases rule: memoized_cases [where n = "n - 1" and m = m and d = d])
      case negative
      with second_raises(1) show ?thesis by simp
    next
      case (hit w)
      with a show ?thesis by (simp add: memoized_hit)
    next
      case zero
      with second_raises(1) show ?thesis by simp
    next
      case one
      with a show ?thesis by (simp add: memoized_one)
    next
      case exhausted
      with a show ?thesis by (simp add: memoized_exhausted)
    next
      case (first_raises d'' e m3)
      with a show ?thesis using memoized_first_raises [OF first_raises(1,2,4)] by simp
    next
      case (second_raises d'' x' m3 e m4)
      with a show ?thesis using memoized_second_raises [OF second_raises(1,2,4,5)] by simp
    next
      case (step d'' x' m3 y' m4)
      have m1: "m1 = m4(n - 1 \<mapsto> x' + y')"
        using a step(3) memoized_step [OF step(1,2,4,5)] by auto
      have n2: "n - 1 - 1 = n - 2" by simp
      have "n - 2 < 2 \<or> m1 (n - 2) \<noteq> None"
      proof (cases "n - 2 < 2")
        case True
        then show ?thesis by simp
      next
        case False
        then have "2 \<le> n - 2" by simp
        then have "m3 (n - 2) = Some x'"
          using memoized_stores [of "n - 2" d'' m x' m3] step(4) n2 by simp
        then have "m4 (n - 2) = Some x'"
          using memoized_keeps [of m3 "n - 2" x' d'' "n - 1 - 2"] step(5) by simp
        then show ?thesis using m1 by simp
      qed
      moreover have "0 \<le> n - 2" using second_raises(1) by simp
      ultimately obtain w where "fibonacci_recursive_memoized d (n - 2) (Some m1) = (Inr w, m1)"
        using memoized_known [of "n - 2" m1 d] by blast
      with b show ?thesis by simp
    qed
    with m2 show ?thesis
      using memoized_second_raises [OF second_raises(1,2) a b] Suc.prems by simp
  next
    case (step d' x m1 y m2)
    then have a: "fibonacci_recursive_memoized d (n - 1) (Some m) = (Inr x, m1)"
      and b: "fibonacci_recursive_memoized d (n - 2) (Some m1) = (Inr y, m2)" by simp_all
    show ?thesis using memoized_step [OF step(1,2) a b] Suc.prems by simp
  qed
qed

lemma memoized_again:
  "fibonacci_recursive_memoized d n (Some (snd (fibonacci_recursive_memoized d n (Some m)))) =
     fibonacci_recursive_memoized d n (Some m)"
proof -
  obtain r m' where c: "fibonacci_recursive_memoized d n (Some m) = (r, m')"
    by (cases "fibonacci_recursive_memoized d n (Some m)")
  show ?thesis
  proof (cases r)
    case (Inl e)
    with c have "m' = m" using memoized_raises_unchanged [of d n m e m'] by simp
    with c show ?thesis by simp
  next
    case (Inr v)
    show ?thesis
    proof (cases "2 \<le> n")
      case True
      then have "m' n = Some v" using memoized_stores [of n d m v m'] c Inr by simp
      then show ?thesis using True c Inr by (simp add: memoized_hit)
    next
      case False
      have "0 \<le> n"
      proof (rule ccontr)
        assume "\<not> 0 \<le> n"
        then show False using c Inr by (simp add: memoized_negative)
      qed
      then obtain w where "fibonacci_recursive_memoized d n (Some m) = (Inr w, m)"
        using memoized_known [of n m d] False by auto
      with c show ?thesis by simp
    qed
  qed
qed

section \<open>The recursive functions against the reference sequence\<close>

lemma nat_pred_pred:
  "2 \<le> n \<Longrightarrow> fib_spec (nat n) = fib_spec (nat (n - 1)) + fib_spec (nat (n - 2))"
proof -
  assume n: "2 \<le> n"
  define k where "k = nat (n - 2)"
  have "nat n = Suc (Suc k)" "nat (n - 1) = Suc k" "nat (n - 2) = k"
    using n unfolding k_def by linarith+
  then show ?thesis by simp
qed

subsection \<open>The naive function\<close>


lemma basic_fib_spec:
  "0 \<le> n \<Longrightarrow> n \<le> int d + 1 \<Longrightarrow> fibonacci_recursive_basic d n = Inr (fib_spec (nat n))"
proof (induction d arbitrary: n)
  case 0
  then have "n = 0 \<or> n = 1" by linarith
  then show ?case by (subst fibonacci_recursive_basic.simps) auto
next
  case (Suc d)
  consider "n = 0" | "n = 1" | "2 \<le> n" using Suc.prems by linarith
  then show ?case
  proof cases
    case 1
    then show ?thesis by (subst fibonacci_recursive_basic.simps) simp
  next
    case 2
    then show ?thesis by (subst fibonacci_recursive_basic.simps) simp
  next
    case 3
    have a: "fibonacci_recursive_basic d (n - 1) = Inr (fib_spec (nat (n - 1)))"
      using Suc.IH [of "n - 1"] Suc.prems 3 by simp
    have b: "fibonacci_recursive_basic d (n - 2) = Inr (fib_spec (nat (n - 2)))"
      using Suc.IH [of "n - 2"] Suc.prems 3 by simp
    show ?thesis
      using 3 a b nat_pred_pred [OF 3] by (subst fibonacci_recursive_basic.simps) simp
  qed
qed

lemma basic_overflow:
  "int d + 2 \<le> n \<Longrightarrow> fibonacci_recursive_basic d n = Inl RecursionError"
proof (induction d arbitrary: n)
  case 0
  then show ?case by (subst fibonacci_recursive_basic.simps) simp
next
  case (Suc d)
  have "fibonacci_recursive_basic d (n - 1) = Inl RecursionError"
    using Suc.IH [of "n - 1"] Suc.prems by simp
  then show ?case using Suc.prems by (subst fibonacci_recursive_basic.simps) simp
qed


subsection \<open>The memoized function\<close>

lemma memoized_sound:
  "consistent m \<Longrightarrow> 0 \<le> n \<Longrightarrow>
     consistent (snd (fibonacci_recursive_memoized d n (Some m))) \<and>
     (\<forall>v. fst (fibonacci_recursive_memoized d n (Some m)) = Inr v \<longrightarrow> v = fib_spec (nat n))"
proof (induction d arbitrary: n m)
  case 0
  show ?case
  proof (cases rule: memoized_cases [where n = n and m = m and d = 0])
    case negative
    with 0 show ?thesis by simp
  next
    case (hit w)
    with 0 show ?thesis by (simp add: memoized_hit consistent_def)
  next
    case zero
    with 0 show ?thesis by (simp add: memoized_zero)
  next
    case one
    with 0 show ?thesis by (simp add: memoized_one)
  next
    case exhausted
    with 0 show ?thesis by (simp add: memoized_exhausted)
  qed simp_all
next
  case (Suc d)
  show ?case
  proof (cases rule: memoized_cases [where n = n and m = m and d = "Suc d"])
    case negative
    with Suc.prems show ?thesis by simp
  next
    case (hit w)
    with Suc.prems show ?thesis by (simp add: memoized_hit consistent_def)
  next
    case zero
    with Suc.prems show ?thesis by (simp add: memoized_zero)
  next
    case one
    with Suc.prems show ?thesis by (simp add: memoized_one)
  next
    case exhausted
    then show ?thesis by simp
  next
    case (first_raises d' e m1)
    then have a: "fibonacci_recursive_memoized d (n - 1) (Some m) = (Inl e, m1)" by simp
    have "consistent m1" using Suc.IH [of m "n - 1"] Suc.prems first_raises(1) a by simp
    then show ?thesis using memoized_first_raises [OF first_raises(1,2) a] by simp
  next
    case (second_raises d' x m1 e m2)
    then have a: "fibonacci_recursive_memoized d (n - 1) (Some m) = (Inr x, m1)"
      and b: "fibonacci_recursive_memoized d (n - 2) (Some m1) = (Inl e, m2)" by simp_all
    have "consistent m1" using Suc.IH [of m "n - 1"] Suc.prems second_raises(1) a by simp
    then have "consistent m2" using Suc.IH [of m1 "n - 2"] second_raises(1) b by simp
    then show ?thesis using memoized_second_raises [OF second_raises(1,2) a b] by simp
  next
    case (step d' x m1 y m2)
    then have a: "fibonacci_recursive_memoized d (n - 1) (Some m) = (Inr x, m1)"
      and b: "fibonacci_recursive_memoized d (n - 2) (Some m1) = (Inr y, m2)" by simp_all
    have m1: "consistent m1" and x: "x = fib_spec (nat (n - 1))"
      using Suc.IH [of m "n - 1"] Suc.prems step(1) a by simp_all
    have m2: "consistent m2" and y: "y = fib_spec (nat (n - 2))"
      using Suc.IH [of m1 "n - 2"] m1 step(1) b by simp_all
    have v: "x + y = fib_spec (nat n)" using x y nat_pred_pred [OF step(1)] by simp
    then have c: "consistent (m2(n \<mapsto> x + y))" using m2 by (simp add: consistent_def)
    have res: "fibonacci_recursive_memoized (Suc d) n (Some m) = (Inr (x + y), m2(n \<mapsto> x + y))"
      by (rule memoized_step [OF step(1,2) a b])
    have "consistent (snd (fibonacci_recursive_memoized (Suc d) n (Some m)))"
      using c by (simp only: res snd_conv)
    moreover have "\<forall>w. fst (fibonacci_recursive_memoized (Suc d) n (Some m)) = Inr w \<longrightarrow>
        w = fib_spec (nat n)"
      using v by (simp add: res)
    ultimately show ?thesis by (rule conjI)
  qed
qed

lemma consistent_empty: "consistent Map.empty"
  by (simp add: consistent_def)

lemma memoized_fresh_sound:
  "0 \<le> n \<Longrightarrow> fst (fibonacci_recursive_memoized d n None) = Inr v \<Longrightarrow> v = fib_spec (nat n)"
  using memoized_sound [OF consistent_empty, of n d] by (simp add: memoized_None)

lemma memoized_fresh_fib_spec:
  "0 \<le> n \<Longrightarrow> n \<le> int d + 1 \<Longrightarrow>
     fst (fibonacci_recursive_memoized d n None) = Inr (fib_spec (nat n))"
proof -
  assume n: "0 \<le> n" "n \<le> int d + 1"
  then obtain v m' where "fibonacci_recursive_memoized d n (Some Map.empty) = (Inr v, m')"
    using memoized_returns [of n d Map.empty] by blast
  then have r: "fst (fibonacci_recursive_memoized d n None) = Inr v"
    by (simp add: memoized_None)
  then show ?thesis using memoized_fresh_sound [OF n(1) r] by simp
qed

lemma memoized_overflow:
  "int d + 2 \<le> n \<Longrightarrow>
     fibonacci_recursive_memoized d n (Some Map.empty) = (Inl RecursionError, Map.empty)"
proof (induction d arbitrary: n)
  case 0
  then show ?case by (simp add: memoized_exhausted)
next
  case (Suc d)
  have a: "fibonacci_recursive_memoized d (n - 1) (Some Map.empty) =
           (Inl RecursionError, Map.empty)"
    using Suc.IH [of "n - 1"] Suc.prems by simp
  have n: "2 \<le> n" using Suc.prems by simp
  show ?case using memoized_first_raises [OF n _ a] by simp
qed

lemma memoized_fresh_overflow:
  "int d + 2 \<le> n \<Longrightarrow> fst (fibonacci_recursive_memoized d n None) = Inl RecursionError"
  by (simp add: memoized_None memoized_overflow)





subsection \<open>The sequence built on the memoized function\<close>

lemma sequence_loop_sound:
  "\<forall>i \<in> set xs. 0 \<le> i \<Longrightarrow> sequence_loop d xs result = Inr ys \<Longrightarrow>
     ys = result @ map (\<lambda>i. fib_spec (nat i)) xs"
proof (induction xs arbitrary: result)
  case Nil
  then show ?case by simp
next
  case (Cons i rest)
  from Cons.prems(2) obtain d' where d: "d = Suc d'" by (cases d) simp_all
  from Cons.prems(2) d obtain v where
    v: "fst (fibonacci_recursive_memoized d' i None) = Inr v"
    and rest: "sequence_loop d rest (result @ [v]) = Inr ys"
    by (cases "fst (fibonacci_recursive_memoized d' i None)") simp_all
  have "v = fib_spec (nat i)" using memoized_fresh_sound [of i d' v] v Cons.prems(1) by simp
  moreover have "ys = (result @ [v]) @ map (\<lambda>i. fib_spec (nat i)) rest"
    using Cons.IH [OF _ rest] Cons.prems(1) by simp
  ultimately show ?case by simp
qed




lemma map_nat_range_py: "map nat (range_py 0 n) = [0..<nat n]"
proof (rule nth_equalityI)
  show "length (map nat (range_py 0 n)) = length [0..<nat n]"
    by (simp add: length_range_py)
next
  fix i
  assume "i < length (map nat (range_py 0 n))"
  then have i: "i < nat n" by (simp add: length_range_py)
  then have "[0..n - 1] ! i = 0 + int i" by (intro nth_upto) linarith
  then show "map nat (range_py 0 n) ! i = [0..<nat n] ! i"
    using i by (simp add: range_py_def)
qed

lemma map_fib_range_py:
  "map (\<lambda>i. fib_spec (nat i)) (range_py 0 n) = map fib_spec [0..<nat n]"
proof -
  have "map (\<lambda>i. fib_spec (nat i)) (range_py 0 n) = map fib_spec (map nat (range_py 0 n))"
    by simp
  then show ?thesis by (simp only: map_nat_range_py)
qed

lemma sequence_recursive_sound:
  "fibonacci_sequence_recursive d n = Inr ys \<Longrightarrow> ys = map fib_spec [0..<nat n]"
proof -
  assume r: "fibonacci_sequence_recursive d n = Inr ys"
  then have n: "0 \<le> n" by (cases "n < 0") (simp_all add: fibonacci_sequence_recursive_def)
  have "\<forall>i \<in> set (range_py 0 n). 0 \<le> i" by (simp add: range_py_def)
  moreover have "sequence_loop d (range_py 0 n) [] = Inr ys"
    using r n by (simp add: fibonacci_sequence_recursive_def)
  ultimately have "ys = [] @ map (\<lambda>i. fib_spec (nat i)) (range_py 0 n)"
    by (rule sequence_loop_sound)
  then show ?thesis by (simp add: map_fib_range_py)
qed



section \<open>The iterative functions against the reference sequence\<close>

lemma nth_iterative_fib_spec:
  "0 \<le> n \<Longrightarrow> get_nth_fibonacci_iterative n = Inr (fib_spec (nat n))"
proof -
  assume n: "0 \<le> n"
  consider "n = 0" | "n = 1" | "2 \<le> n" using n by linarith
  then show ?thesis
  proof cases
    case 1
    then show ?thesis by (simp add: get_nth_fibonacci_iterative_def)
  next
    case 2
    then show ?thesis by (simp add: get_nth_fibonacci_iterative_def)
  next
    case 3
    have len: "length (range_py 2 (n + 1)) = nat (n - 1)"
      by (simp add: length_range_py)
    have "fold pair_step (range_py 2 (n + 1)) (0, 1) =
          (fib_spec (nat (n - 1)), fib_spec (Suc (nat (n - 1))))"
      using fold_pair_step [of "range_py 2 (n + 1)" 0] by (simp add: len)
    moreover have "Suc (nat (n - 1)) = nat n" using 3 by linarith
    ultimately show ?thesis using 3 by (simp add: get_nth_fibonacci_iterative_def)
  qed
qed

lemma fold_append_from_start:
  "2 \<le> n \<Longrightarrow> fold append_step (range_py 1 n) ([0], 0, 1) =
     (map fib_spec [0..<nat n], fib_spec (nat n - 1), fib_spec (nat n))"
proof -
  assume n: "2 \<le> n"
  have len: "length (range_py 1 n) = nat n - 1"
    using n by (simp add: length_range_py nat_diff_distrib)
  define j where "j = nat n - 2"
  have j: "nat n = Suc (Suc j)"
    using n unfolding j_def by linarith
  have "fold append_step (range_py 1 n) ([0], 0, 1) =
        ([0] @ map fib_spec [Suc 0..<Suc 0 + (nat n - 1)], fib_spec (0 + (nat n - 1)),
         fib_spec (Suc (0 + (nat n - 1))))"
    using fold_append_step [of "range_py 1 n" "[0]" 0] by (simp add: len)
  also have "[0] @ map fib_spec [Suc 0..<Suc 0 + (nat n - 1)] = map fib_spec [0..<nat n]"
    using j by (simp add: upt_rec [of 0])
  finally show ?thesis using j by simp
qed

lemma iterative_fib_spec:
  "0 \<le> n \<Longrightarrow> fibonacci_iterative n = Inr (map fib_spec [0..<nat n])"
proof -
  assume n: "0 \<le> n"
  consider "n = 0" | "n = 1" | "2 \<le> n" using n by linarith
  then show ?thesis
  proof cases
    case 1
    then show ?thesis by (simp add: fibonacci_iterative_def)
  next
    case 2
    then show ?thesis by (simp add: fibonacci_iterative_def)
  next
    case 3
    then show ?thesis by (simp add: fibonacci_iterative_def fold_append_from_start)
  qed
qed

lemma generate_fib_spec:
  "generate_fibonacci n = Inr (map fib_spec [0..<nat n])"
proof -
  consider "n \<le> 0" | "n = 1" | "2 \<le> n" by linarith
  then show ?thesis
  proof cases
    case 1
    then show ?thesis by (simp add: generate_fibonacci_def)
  next
    case 2
    then show ?thesis by (simp add: generate_fibonacci_def)
  next
    case 3
    then show ?thesis by (simp add: generate_fibonacci_def fold_append_from_start)
  qed
qed

section \<open>The claims of the specification\<close>

text \<open>
  Claim C1 says that the three single-value strategies return the same integer for every
  \<open>n \<ge> 0\<close>. With 998 nested calls allowed, at \<open>n = 1000\<close> the iterative function returns
  the reference value and both recursive functions raise \<open>RecursionError\<close>.
\<close>

theorem recursion_limit_counterexample:
  "get_nth_fibonacci_iterative 1000 = Inr (fib_spec 1000) \<and>
   fibonacci_recursive_basic 998 1000 = Inl RecursionError \<and>
   fst (fibonacci_recursive_memoized 998 1000 None) = Inl RecursionError"
  using nth_iterative_fib_spec [of 1000] basic_overflow [of 998 1000]
    memoized_fresh_overflow [of 998 1000]
  by simp

text \<open>
  Claim C1, amended. For every \<open>n \<ge> 0\<close> within the recursion budget, \<open>n \<le> depth + 1\<close>
  where \<open>depth\<close> is the number of nested calls the interpreter still allows when the recursive
  function is entered, the three single-value strategies return the same integer:
  \<open>get_nth_fibonacci_iterative(n)\<close>, \<open>fibonacci_recursive_basic(n)\<close> and
  \<open>fibonacci_recursive_memoized(n)\<close> called without a dictionary, and none of them raises.
\<close>

theorem strategies_agree:
  "0 \<le> n \<Longrightarrow> n \<le> int depth + 1 \<Longrightarrow>
     get_nth_fibonacci_iterative n = fibonacci_recursive_basic depth n \<and>
     fibonacci_recursive_basic depth n = fst (fibonacci_recursive_memoized depth n None) \<and>
     (\<exists>v. get_nth_fibonacci_iterative n = Inr v)"
  by (simp add: nth_iterative_fib_spec basic_fib_spec memoized_fresh_fib_spec)

text \<open>The same at a concrete input.\<close>

theorem strategies_agree_witness:
  "(0::int) \<le> 10 \<and> (10::int) \<le> int 9 + 1 \<and>
     get_nth_fibonacci_iterative 10 = Inr 55 \<and>
     fibonacci_recursive_basic 9 10 = Inr 55 \<and>
     fst (fibonacci_recursive_memoized 9 10 None) = Inr 55"
proof -
  have h: "(0::int) \<le> 10" by simp
  have g: "(10::int) \<le> int 9 + 1" by simp
  have e: "get_nth_fibonacci_iterative 10 = Inr 55" by code_simp
  show ?thesis using strategies_agree [OF h g] e by simp
qed

text \<open>
  Claim C2. \<open>get_nth_fibonacci_iterative\<close> is the reference sequence: it returns 0 at 0 and
  1 at 1, for every \<open>n \<ge> 2\<close> its result is the sum of its results at \<open>n - 1\<close> and
  \<open>n - 2\<close>, and at every index \<open>k\<close> it returns \<open>fib_spec k\<close>.
\<close>

theorem nth_iterative_is_fibonacci:
  "get_nth_fibonacci_iterative 0 = Inr 0 \<and>
   get_nth_fibonacci_iterative 1 = Inr 1 \<and>
   (2 \<le> n \<longrightarrow>
      (\<exists>x y. get_nth_fibonacci_iterative (n - 1) = Inr x \<and>
             get_nth_fibonacci_iterative (n - 2) = Inr y \<and>
             get_nth_fibonacci_iterative n = Inr (x + y))) \<and>
   get_nth_fibonacci_iterative (int k) = Inr (fib_spec k)"
proof -
  have "get_nth_fibonacci_iterative n = Inr (fib_spec (nat (n - 1)) + fib_spec (nat (n - 2)))"
    if n: "2 \<le> n"
    using n nat_pred_pred [OF n] by (simp add: nth_iterative_fib_spec)
  then have "2 \<le> n \<longrightarrow>
      (\<exists>x y. get_nth_fibonacci_iterative (n - 1) = Inr x \<and>
             get_nth_fibonacci_iterative (n - 2) = Inr y \<and>
             get_nth_fibonacci_iterative n = Inr (x + y))"
    by (simp add: nth_iterative_fib_spec)
  moreover have "get_nth_fibonacci_iterative (int k) = Inr (fib_spec k)"
    using nth_iterative_fib_spec [of "int k"] by simp
  ultimately show ?thesis by (simp add: get_nth_fibonacci_iterative_def)
qed

text \<open>The same at a concrete input.\<close>

theorem nth_iterative_is_fibonacci_witness:
  "(2::int) \<le> 10 \<and> get_nth_fibonacci_iterative 9 = Inr 34 \<and>
     get_nth_fibonacci_iterative 8 = Inr 21 \<and> get_nth_fibonacci_iterative 10 = Inr (34 + 21)"
proof -
  have a: "get_nth_fibonacci_iterative 9 = Inr 34" by code_simp
  have b: "get_nth_fibonacci_iterative 8 = Inr 21" by code_simp
  show ?thesis using nth_iterative_is_fibonacci [of 10 0] a b by simp
qed




text \<open>
  Claim C4 says that a base case computed by \<open>fibonacci_recursive_memoized\<close> is also written
  to the dictionary. On an empty dictionary the calls at 0 and at 1 return 0 and 1, and the
  dictionary has no entry under 0 or under 1 afterwards: \<open>return 0\<close> and \<open>return 1\<close> come
  before any store.
\<close>

theorem base_case_written_counterexample:
  "fst (fibonacci_recursive_memoized 998 0 (Some Map.empty)) = Inr 0 \<and>
   snd (fibonacci_recursive_memoized 998 0 (Some Map.empty)) 0 \<noteq> Some 0 \<and>
   fst (fibonacci_recursive_memoized 998 1 (Some Map.empty)) = Inr 1 \<and>
   snd (fibonacci_recursive_memoized 998 1 (Some Map.empty)) 1 \<noteq> Some 1"
  by (simp add: memoized_zero memoized_one)

text \<open>
  Claim C4, amended. Called at a base case (\<open>n = 0\<close> or \<open>n = 1\<close>) with a dictionary that
  has no entry under \<open>n\<close>, \<open>fibonacci_recursive_memoized\<close> returns 0 respectively 1 and
  leaves the dictionary as it was: the base-case value is returned and not stored.
\<close>

theorem base_case_returned_directly:
  "(n = 0 \<or> n = 1) \<Longrightarrow> m n = None \<Longrightarrow>
     fibonacci_recursive_memoized depth n (Some m) = (Inr n, m)"
  by (auto simp: memoized_zero memoized_one)

text \<open>The same at a concrete input.\<close>

theorem base_case_returned_directly_witness:
  "((1::int) = 0 \<or> (1::int) = 1) \<and> [5 \<mapsto> 5] (1::int) = (None :: int option) \<and>
     fibonacci_recursive_memoized 0 1 (Some [5 \<mapsto> 5]) = (Inr 1, [5 \<mapsto> 5])"
proof -
  have h: "(1::int) = 0 \<or> (1::int) = 1" by simp
  have g: "[5 \<mapsto> 5] (1::int) = (None :: int option)" by simp
  show ?thesis
    using h g base_case_returned_directly [where n = 1 and m = "[5 \<mapsto> 5]" and depth = 0]
    by simp
qed




text \<open>
  Claim C6. Whatever the dictionary holds, calling \<open>fibonacci_recursive_memoized(10, memo)\<close>
  twice on the same dictionary gives the same outcome both times and the entry under 10 after
  the second call is the entry after the first; and when the recursion budget allows the
  nine nested calls that index 10 can need, the outcome is a value and the entry under 10 is
  that value.
\<close>

theorem memoized_twice_at_10:
  "fst (fibonacci_recursive_memoized depth 10
          (Some (snd (fibonacci_recursive_memoized depth 10 (Some m))))) =
     fst (fibonacci_recursive_memoized depth 10 (Some m)) \<and>
   snd (fibonacci_recursive_memoized depth 10
          (Some (snd (fibonacci_recursive_memoized depth 10 (Some m))))) 10 =
     snd (fibonacci_recursive_memoized depth 10 (Some m)) 10 \<and>
   (9 \<le> depth \<longrightarrow>
     (\<exists>v. fst (fibonacci_recursive_memoized depth 10 (Some m)) = Inr v \<and>
          snd (fibonacci_recursive_memoized depth 10 (Some m)) 10 = Some v))"
proof -
  have "\<exists>v. fst (fibonacci_recursive_memoized depth 10 (Some m)) = Inr v \<and>
          snd (fibonacci_recursive_memoized depth 10 (Some m)) 10 = Some v"
    if d: "9 \<le> depth"
  proof -
    obtain v m' where r: "fibonacci_recursive_memoized depth 10 (Some m) = (Inr v, m')"
      using memoized_returns [of 10 depth m] d by auto
    then have "m' 10 = Some v" using memoized_stores [of 10 depth m v m'] by simp
    with r show ?thesis by simp
  qed
  then show ?thesis by (simp add: memoized_again)
qed

text \<open>The same at a concrete input.\<close>

theorem memoized_twice_at_10_witness:
  "(9::nat) \<le> 9 \<and> fst (fibonacci_recursive_memoized 9 10 (Some Map.empty)) = Inr 55 \<and>
     snd (fibonacci_recursive_memoized 9 10 (Some Map.empty)) 10 = Some 55 \<and>
     fst (fibonacci_recursive_memoized 9 10
            (Some (snd (fibonacci_recursive_memoized 9 10 (Some Map.empty))))) = Inr 55"
proof -
  have e: "fst (fibonacci_recursive_memoized 9 10 (Some Map.empty)) = Inr 55" by code_simp
  show ?thesis using memoized_twice_at_10 [of 9 Map.empty] e by simp
qed

text \<open>
  Claim C7. For every dictionary and every \<open>n \<ge> 0\<close>, each key present before a call of
  \<open>fibonacci_recursive_memoized(n, memo)\<close> maps to the same value after it, whether the
  call returns or raises.
\<close>

theorem never_overwritten:
  "0 \<le> n \<Longrightarrow> m k = Some v \<Longrightarrow>
     snd (fibonacci_recursive_memoized depth n (Some m)) k = Some v"
  by (rule memoized_keeps)

text \<open>The same at a concrete input.\<close>

theorem never_overwritten_witness:
  "(0::int) \<le> 5 \<and> [3 \<mapsto> 7] (3::int) = Some (7::int) \<and>
     snd (fibonacci_recursive_memoized 4 5 (Some [3 \<mapsto> 7])) 3 = Some 7"
proof -
  have h: "(0::int) \<le> 5" by simp
  have g: "[3 \<mapsto> 7] (3::int) = Some (7::int)" by simp
  show ?thesis
    using h g never_overwritten [where n = 5 and m = "[3 \<mapsto> 7]" and k = 3 and v = 7 and depth = 4]
    by simp
qed

text \<open>
  Claim C8. At \<open>n = 0\<close> the three sequence-producing operations return the empty list and
  \<open>get_nth_fibonacci_iterative(0)\<close> returns 0.
\<close>

theorem boundary_zero:
  "fibonacci_iterative 0 = Inr [] \<and> generate_fibonacci 0 = Inr [] \<and>
   fibonacci_sequence_recursive depth 0 = Inr [] \<and> get_nth_fibonacci_iterative 0 = Inr 0"
  by (simp add: fibonacci_iterative_def generate_fibonacci_def fibonacci_sequence_recursive_def
      get_nth_fibonacci_iterative_def range_py_def)

text \<open>
  Claim C9. For every \<open>n \<ge> 1\<close>, \<open>fibonacci_iterative\<close> and \<open>generate_fibonacci\<close> return
  a list of length \<open>n\<close> whose first element is 0 and, when \<open>n \<ge> 2\<close>, whose second element
  is 1, and every list that \<open>fibonacci_sequence_recursive\<close> returns is such a list.
\<close>

theorem sequence_prefix:
  "1 \<le> n \<Longrightarrow>
     (\<exists>xs. fibonacci_iterative n = Inr xs \<and> length xs = nat n \<and> xs ! 0 = 0 \<and>
           (2 \<le> n \<longrightarrow> xs ! 1 = 1)) \<and>
     (\<exists>xs. generate_fibonacci n = Inr xs \<and> length xs = nat n \<and> xs ! 0 = 0 \<and>
           (2 \<le> n \<longrightarrow> xs ! 1 = 1)) \<and>
     (\<forall>xs. fibonacci_sequence_recursive depth n = Inr xs \<longrightarrow>
           length xs = nat n \<and> xs ! 0 = 0 \<and> (2 \<le> n \<longrightarrow> xs ! 1 = 1))"
proof -
  assume n: "1 \<le> n"
  have a: "map fib_spec [0..<nat n] ! 0 = 0" using n by simp
  have b: "2 \<le> n \<longrightarrow> map fib_spec [0..<nat n] ! 1 = 1" by simp
  have "\<forall>xs. fibonacci_sequence_recursive depth n = Inr xs \<longrightarrow>
           length xs = nat n \<and> xs ! 0 = 0 \<and> (2 \<le> n \<longrightarrow> xs ! 1 = 1)"
  proof (intro allI impI)
    fix xs
    assume "fibonacci_sequence_recursive depth n = Inr xs"
    then have "xs = map fib_spec [0..<nat n]" by (rule sequence_recursive_sound)
    with a b show "length xs = nat n \<and> xs ! 0 = 0 \<and> (2 \<le> n \<longrightarrow> xs ! 1 = 1)" by simp
  qed
  then show ?thesis
    using n a b by (simp add: iterative_fib_spec generate_fib_spec)
qed

text \<open>The same at a concrete input.\<close>

theorem sequence_prefix_witness:
  "(1::int) \<le> 7 \<and> (2::int) \<le> 7 \<and>
     (\<exists>xs. fibonacci_iterative 7 = Inr xs \<and> length xs = 7 \<and> xs ! 0 = 0 \<and> xs ! 1 = 1) \<and>
     (\<exists>xs. generate_fibonacci 7 = Inr xs \<and> length xs = 7 \<and> xs ! 0 = 0 \<and> xs ! 1 = 1) \<and>
     fibonacci_sequence_recursive 6 7 = Inr [0, 1, 1, 2, 3, 5, 8] \<and>
     length [0, 1, 1, 2, 3, 5, 8 :: int] = 7 \<and> [0, 1, 1, 2, 3, 5, 8 :: int] ! 0 = 0 \<and>
     [0, 1, 1, 2, 3, 5, 8 :: int] ! 1 = 1"
proof -
  have h: "(1::int) \<le> 7" by simp
  have e: "fibonacci_sequence_recursive 6 7 = Inr [0, 1, 1, 2, 3, 5, 8]" by code_simp
  show ?thesis using sequence_prefix [OF h, of 6] e by simp
qed

text \<open>
  Claim C10. For every \<open>n \<ge> 0\<close> and every dictionary with an entry \<open>v\<close> under \<open>n\<close>,
  \<open>fibonacci_recursive_memoized(n, memo)\<close> returns exactly \<open>v\<close>, whether or not \<open>v\<close> is
  a Fibonacci number, and the dictionary after the call is the dictionary before it.
\<close>

theorem cache_hit_returns_entry:
  "0 \<le> n \<Longrightarrow> m n = Some v \<Longrightarrow>
     fibonacci_recursive_memoized depth n (Some m) = (Inr v, m)"
  by (rule memoized_hit)

text \<open>The same at a concrete input.\<close>

theorem cache_hit_returns_entry_witness:
  "(0::int) \<le> 4 \<and> [4 \<mapsto> 100] (4::int) = Some (100::int) \<and>
     fibonacci_recursive_memoized 0 4 (Some [4 \<mapsto> 100]) = (Inr 100, [4 \<mapsto> 100])"
proof -
  have h: "(0::int) \<le> 4" by simp
  have g: "[4 \<mapsto> 100] (4::int) = Some (100::int)" by simp
  show ?thesis
    using h g cache_hit_returns_entry [where n = 4 and m = "[4 \<mapsto> 100]" and v = 100 and depth = 0]
    by simp
qed

end
